theory Spec2Isabelle
  imports Complex_Main "HOL-Library.AList" "HOL-Library.Multiset"
begin

section \<open>Data model of \<open>release:gen-assembly from-releases\<close>\<close>

text \<open>
  The development embeds \<open>GenAssemblyCli\<close> of
  \<open>doozerlib/cli/release_gen_assembly.py\<close>. Python dictionaries are association
  lists in insertion order (\<open>map_of\<close> reads a key, \<open>AList.update\<close> writes one: an
  existing key keeps its position, a new key goes last). Timestamps are Python floats,
  read here as reals. \<open>_exit_with_error\<close> prints and calls \<open>exit(1)\<close>: every such call
  is the \<open>Inl\<close> branch of the result. Brew, the image inspector, \<open>oc\<close> and the group
  metadata are collaborators outside this file; they are the fields of \<open>env\<close>.
\<close>

record image_meta =
  base_only :: bool
  for_release :: bool
  is_payload :: bool
  distgit_key :: string
  component_name :: string
  payload_tag_info :: "string \<times> bool"

text \<open>A brew build dictionary, with the keys the code reads.\<close>

record brew_build_dict =
  bd_id :: nat
  bd_package_name :: string
  bd_nvr :: string
  bd_release :: string

text \<open>What a \<open>BrewBuildImageInspector\<close> answers.\<close>

record inspector =
  package_name :: string
  nvr :: string
  brew_build_id :: nat
  completion_ts :: real
  bbi_image_meta :: image_meta

record rpm_meta =
  rpm_distgit_key :: string

record component_tag =
  tag_name :: string
  tag_from :: string

record release_info =
  spec_tags :: "component_tag list"
  machine_os_version :: string

record rhcos_container_config =
  cfg_name :: string
  build_metadata_key :: string

datatype log_level = INFO | WARNING | ERROR

datatype log_event =
    ProcessingRelease string
  | IgnoringPayloadTag string string
  | SelectingPayloadTag string string
  | EstimatedBasisEvent nat
  | DetectedPackageNames "string list"
  | NonPayloadSwept string string
  | NotFoundInReleases string string
  | ImagePinned string string
  | RhcosMissingIgnored string string
  | RhcosFound string string string
  | QueryingRpmBuilds nat
  | RpmSelected string string
  | RpmPinned string string

datatype error =
    NoImagestreamTags string
  | NoMachineOsVersion string
  | DisparateNvrs string string string
  | NoEventBefore real
  | NoImageFound string nat
  | NoRhcosVersion string string
  | NoRhcosImage string string
  | UnableToIsolateEl string
  | NoRpmFound string nat
  | KeyError string

record env =
  oc_adm_release_info :: "string \<Rightarrow> release_info"
  inspect_pullspec :: "string \<Rightarrow> inspector"
  inspect_build_id :: "nat \<Rightarrow> inspector"
  get_container_names :: "string list"
  getLastEvent :: "real \<Rightarrow> nat option"
  image_metas :: "image_meta list"
  image_latest_brew_build :: "image_meta \<Rightarrow> nat \<Rightarrow> brew_build_dict option"
  package_rpm_meta :: "(string \<times> rpm_meta) list"
  rpm_latest_brew_build :: "rpm_meta \<Rightarrow> nat \<Rightarrow> nat \<Rightarrow> brew_build_dict option"
  isolate_el_version_in_release :: "string \<Rightarrow> nat option"
  list_archives_by_builds :: "nat list \<Rightarrow> nat list list list"
  get_build_objects :: "nat set \<Rightarrow> brew_build_dict list"
  get_primary_container_name :: string
  get_container_configs :: "rhcos_container_config list"
  group_arches :: "string list"
  rhcos_meta_json :: "string \<Rightarrow> string \<Rightarrow> (string \<times> string \<times> string) list"

record state =
  rhcos_version :: string
  rhcos_by_tag :: "(string \<times> (string \<times> string) list) list"
  component_image_builds :: "(string \<times> inspector) list"
  component_rpm_builds :: "(string \<times> (nat \<times> brew_build_dict) list) list"
  basis_event :: nat
  basis_event_ts :: real
  force_is :: "string list"
  log :: "(log_level \<times> log_event) list"

definition init_state :: state where
  "init_state = \<lparr>rhcos_version = [], rhcos_by_tag = [], component_image_builds = [],
     component_rpm_builds = [], basis_event = 0, basis_event_ts = 0, force_is = [], log = []\<rparr>"

definition logger :: "log_level \<Rightarrow> log_event \<Rightarrow> state \<Rightarrow> state" where
  "logger lvl ev s = s\<lparr>log := log s @ [(lvl, ev)]\<rparr>"

section \<open>\<open>_process_release\<close> and \<open>_determine_basis_brew_event\<close>\<close>

text \<open>\<open>self.rhcos_by_tag.setdefault(payload_tag_name, {})[brew_cpu_arch] = pullspec\<close>\<close>

definition rhcos_setdefault_put ::
  "string \<Rightarrow> string \<Rightarrow> string \<Rightarrow> (string \<times> (string \<times> string) list) list
     \<Rightarrow> (string \<times> (string \<times> string) list) list" where
  "rhcos_setdefault_put tag arch ps m =
     AList.update tag (AList.update arch ps (case map_of m tag of None \<Rightarrow> [] | Some d \<Rightarrow> d)) m"

text \<open>Lines 306 to 309: the completion time plus five minutes raises the basis instant.\<close>

definition raise_basis_event_ts :: "inspector \<Rightarrow> state \<Rightarrow> state" where
  "raise_basis_event_ts bbi s =
     s\<lparr>basis_event_ts := max (basis_event_ts s) (completion_ts bbi + (60 * 5))\<rparr>"

text \<open>One round of the loop over \<open>release_info.references.spec.tags\<close>.\<close>

definition process_tag :: "env \<Rightarrow> string \<Rightarrow> string \<Rightarrow> component_tag \<Rightarrow> state \<Rightarrow> error + state" where
  "process_tag e brew_cpu_arch pullspec ct s =
     (let payload_tag_name = tag_name ct; payload_tag_pullspec = tag_from ct in
      if payload_tag_name \<in> set (get_container_names e) then
        Inr (s\<lparr>rhcos_by_tag :=
                 rhcos_setdefault_put payload_tag_name brew_cpu_arch payload_tag_pullspec (rhcos_by_tag s)\<rparr>)
      else
        let bbi = inspect_pullspec e payload_tag_pullspec;
            pkg = package_name bbi;
            build_nvr = nvr bbi
        in case map_of (component_image_builds s) pkg of
             Some existing \<Rightarrow>
               if build_nvr \<noteq> nvr existing then
                 (let payload_name = fst (payload_tag_info (bbi_image_meta bbi));
                      explicit = snd (payload_tag_info (bbi_image_meta bbi))
                  in if explicit then
                       (if payload_name \<noteq> payload_tag_name then
                          Inr (logger WARNING (IgnoringPayloadTag payload_tag_name payload_name) s)
                        else
                          Inr (raise_basis_event_ts bbi
                                ((logger WARNING (SelectingPayloadTag payload_tag_name payload_name) s)
                                   \<lparr>component_image_builds :=
                                      AList.update pkg bbi (component_image_builds s)\<rparr>)))
                     else Inl (DisparateNvrs (nvr existing) build_nvr pullspec))
               else Inr (raise_basis_event_ts bbi s)
           | None \<Rightarrow>
               Inr (raise_basis_event_ts bbi
                     (s\<lparr>component_image_builds := AList.update pkg bbi (component_image_builds s)\<rparr>)))"

fun process_tags :: "env \<Rightarrow> string \<Rightarrow> string \<Rightarrow> component_tag list \<Rightarrow> state \<Rightarrow> error + state" where
  "process_tags e arch pullspec [] s = Inr s"
| "process_tags e arch pullspec (ct # cts) s =
     (case process_tag e arch pullspec ct s of
        Inl err \<Rightarrow> Inl err
      | Inr s' \<Rightarrow> process_tags e arch pullspec cts s')"

text \<open>
  \<open>_process_release\<close>. Its only suspension point is the \<open>oc adm release info\<close> call at
  the start; everything after it runs without yielding, so the body of one release is
  one uninterrupted step.
\<close>

definition process_release :: "env \<Rightarrow> string \<times> string \<Rightarrow> state \<Rightarrow> error + state" where
  "process_release e rel s =
     (let brew_cpu_arch = fst rel; pullspec = snd rel;
          s1 = logger INFO (ProcessingRelease pullspec) s;
          release_info = oc_adm_release_info e pullspec
      in if spec_tags release_info = [] then Inl (NoImagestreamTags pullspec)
         else if machine_os_version release_info = [] then Inl (NoMachineOsVersion pullspec)
         else process_tags e brew_cpu_arch pullspec (spec_tags release_info)
                (s1\<lparr>rhcos_version := machine_os_version release_info\<rparr>))"

text \<open>
  The releases gathered by \<open>asyncio.gather\<close>, in the order in which their
  \<open>oc adm release info\<close> calls complete.
\<close>

fun process_releases :: "env \<Rightarrow> (string \<times> string) list \<Rightarrow> state \<Rightarrow> error + state" where
  "process_releases e [] s = Inr s"
| "process_releases e (rel # rels) s =
     (case process_release e rel s of
        Inl err \<Rightarrow> Inl err
      | Inr s' \<Rightarrow> process_releases e rels s')"

definition determine_basis_brew_event :: "env \<Rightarrow> (string \<times> string) list \<Rightarrow> state \<Rightarrow> error + state" where
  "determine_basis_brew_event e release_pullspecs s =
     (case process_releases e release_pullspecs s of
        Inl err \<Rightarrow> Inl err
      | Inr s1 \<Rightarrow>
          (case getLastEvent e (basis_event_ts s1) of
             None \<Rightarrow> Inl (NoEventBefore (basis_event_ts s1))
           | Some ev \<Rightarrow>
               Inr (logger INFO (DetectedPackageNames (map fst (component_image_builds s1)))
                     (logger INFO (EstimatedBasisEvent ev) (s1\<lparr>basis_event := ev\<rparr>)))))"

section \<open>\<open>_collect_outliers\<close>\<close>

text \<open>
  \<open>force_is\<close> is a Python set; the model keeps its elements in the order of their
  first \<open>add\<close>.
\<close>

definition set_add :: "string \<Rightarrow> string list \<Rightarrow> string list" where
  "set_add x xs = (if x \<in> set xs then xs else xs @ [x])"

text \<open>One round of the loop over \<open>self.runtime.image_metas()\<close>.\<close>

definition collect_outlier :: "env \<Rightarrow> bool \<Rightarrow> image_meta \<Rightarrow> state \<Rightarrow> error + state" where
  "collect_outlier e custom im s =
     (if base_only im \<or> \<not> for_release im then Inr s
      else
        let dgk = distgit_key im; pkg = component_name im in
        case image_latest_brew_build e im (basis_event s) of
          None \<Rightarrow> Inl (NoImageFound dgk (basis_event s))
        | Some basis_event_dict \<Rightarrow>
            let basis_event_build_dict = inspect_build_id e (bd_id basis_event_dict);
                basis_event_build_nvr = nvr basis_event_build_dict
            in if \<not> is_payload im then
                 Inr ((logger INFO (NonPayloadSwept dgk basis_event_build_nvr) s)
                        \<lparr>component_image_builds :=
                           AList.update pkg basis_event_build_dict (component_image_builds s)\<rparr>)
               else
                 (case map_of (component_image_builds s) pkg of
                    None \<Rightarrow>
                      Inr ((logger (if custom then WARNING else ERROR)
                              (NotFoundInReleases dgk basis_event_build_nvr) s)
                             \<lparr>component_image_builds :=
                                AList.update pkg basis_event_build_dict (component_image_builds s)\<rparr>)
                  | Some ref_releases_component_build \<Rightarrow>
                      if basis_event_build_nvr \<noteq> nvr ref_releases_component_build then
                        Inr ((logger INFO (ImagePinned dgk basis_event_build_nvr) s)
                               \<lparr>force_is := set_add pkg (force_is s)\<rparr>)
                      else Inr s))"

fun collect_outliers_loop :: "env \<Rightarrow> bool \<Rightarrow> image_meta list \<Rightarrow> state \<Rightarrow> error + state" where
  "collect_outliers_loop e custom [] s = Inr s"
| "collect_outliers_loop e custom (im # ims) s =
     (case collect_outlier e custom im s of
        Inl err \<Rightarrow> Inl err
      | Inr s' \<Rightarrow> collect_outliers_loop e custom ims s')"

definition collect_outliers :: "env \<Rightarrow> bool \<Rightarrow> state \<Rightarrow> error + state" where
  "collect_outliers e custom s = collect_outliers_loop e custom (image_metas e) s"

section \<open>\<open>_get_rhcos_container\<close>\<close>

text \<open>
  \<open>rhcos_meta_json e version arch\<close> is the \<open>meta.json\<close> document fetched for an RHCOS
  build and architecture: build metadata key to (image, digest). The group's
  major.minor and RHCOS el version in the URL are constants of a run.
\<close>

fun rhcos_fill_tags ::
  "string \<Rightarrow> (string \<times> string \<times> string) list \<Rightarrow> rhcos_container_config list \<Rightarrow> state
     \<Rightarrow> error + state" where
  "rhcos_fill_tags arch meta [] s = Inr s"
| "rhcos_fill_tags arch meta (tag # tags) s =
     (case map_of meta (build_metadata_key tag) of
        None \<Rightarrow> Inl (NoRhcosImage (cfg_name tag) arch)
      | Some rhcos_image \<Rightarrow>
          (case map_of (rhcos_by_tag s) (cfg_name tag) of
             None \<Rightarrow> Inl (KeyError (cfg_name tag))
           | Some by_arch \<Rightarrow>
               let ps = fst rhcos_image @ ''@'' @ snd rhcos_image in
               rhcos_fill_tags arch meta tags
                 (logger INFO (RhcosFound (cfg_name tag) arch ps)
                    (s\<lparr>rhcos_by_tag :=
                         AList.update (cfg_name tag) (AList.update arch ps by_arch) (rhcos_by_tag s)\<rparr>))))"

definition rhcos_for_arch :: "env \<Rightarrow> bool \<Rightarrow> string \<Rightarrow> state \<Rightarrow> error + state" where
  "rhcos_for_arch e custom arch s =
     (case map_of (rhcos_by_tag s) (get_primary_container_name e) of
        None \<Rightarrow> Inl (KeyError (get_primary_container_name e))
      | Some by_arch \<Rightarrow>
          if arch \<in> fst ` set by_arch then Inr s
          else if custom then
            Inr (logger INFO (RhcosMissingIgnored (get_primary_container_name e) arch) s)
          else if rhcos_version s = [] then
            Inl (NoRhcosVersion (get_primary_container_name e) arch)
          else rhcos_fill_tags arch (rhcos_meta_json e (rhcos_version s) arch)
                 (get_container_configs e) s)"

fun rhcos_arches_loop :: "env \<Rightarrow> bool \<Rightarrow> string list \<Rightarrow> state \<Rightarrow> error + state" where
  "rhcos_arches_loop e custom [] s = Inr s"
| "rhcos_arches_loop e custom (arch # arches) s =
     (case rhcos_for_arch e custom arch s of
        Inl err \<Rightarrow> Inl err
      | Inr s' \<Rightarrow> rhcos_arches_loop e custom arches s')"

definition get_rhcos_container :: "env \<Rightarrow> bool \<Rightarrow> state \<Rightarrow> error + state" where
  "get_rhcos_container e custom s = rhcos_arches_loop e custom (group_arches e) s"

section \<open>\<open>_select_rpms\<close>\<close>

text \<open>
  An archive is the list of the build ids of its rpms. \<open>rpm_build_ids\<close> is the set
  comprehension of line 450, and \<open>get_build_objects\<close> lists the builds of that set.
\<close>

definition rpm_build_ids :: "env \<Rightarrow> state \<Rightarrow> nat set" where
  "rpm_build_ids e s =
     (\<Union>archives \<in> set (list_archives_by_builds e
                            (map (\<lambda>kv. brew_build_id (snd kv)) (component_image_builds s))).
        \<Union>ar \<in> set archives. set ar)"

definition ref_releases_rpm_builds :: "env \<Rightarrow> state \<Rightarrow> brew_build_dict list" where
  "ref_releases_rpm_builds e s = get_build_objects e (rpm_build_ids e s)"

text \<open>
  One round of the loop over \<open>ref_releases_rpm_builds\<close>. \<open>if not el_ver\<close> holds for
  \<open>None\<close> and for \<open>0\<close>.
\<close>

definition select_rpm :: "env \<Rightarrow> brew_build_dict \<Rightarrow> state \<Rightarrow> error + state" where
  "select_rpm e ref_releases_rpm_build s =
     (let pkg = bd_package_name ref_releases_rpm_build in
      case map_of (package_rpm_meta e) pkg of
        None \<Rightarrow> Inr s
      | Some rm \<Rightarrow>
          let dgk = rpm_distgit_key rm; rpm_build_nvr = bd_nvr ref_releases_rpm_build in
          case isolate_el_version_in_release e (bd_release ref_releases_rpm_build) of
            None \<Rightarrow> Inl (UnableToIsolateEl rpm_build_nvr)
          | Some el_ver \<Rightarrow>
              if el_ver = 0 then Inl (UnableToIsolateEl rpm_build_nvr)
              else
                let by_el = (case map_of (component_rpm_builds s) pkg of None \<Rightarrow> [] | Some d \<Rightarrow> d);
                    s1 = (case map_of (component_rpm_builds s) pkg of
                            None \<Rightarrow> s\<lparr>component_rpm_builds :=
                                        AList.update pkg [] (component_rpm_builds s)\<rparr>
                          | Some d \<Rightarrow> s)
                in if el_ver \<in> fst ` set by_el then Inr s1
                   else
                     (case rpm_latest_brew_build e rm el_ver (basis_event s) of
                        None \<Rightarrow> Inl (NoRpmFound dgk (basis_event s))
                      | Some basis_event_build_dict \<Rightarrow>
                          if el_ver \<in> fst ` set by_el then Inr s1
                          else
                            let s2 = logger INFO (RpmSelected dgk (bd_nvr basis_event_build_dict))
                                       (s1\<lparr>component_rpm_builds :=
                                            AList.update pkg
                                              (AList.update el_ver ref_releases_rpm_build by_el)
                                              (component_rpm_builds s1)\<rparr>)
                            in if bd_nvr basis_event_build_dict \<noteq> bd_nvr ref_releases_rpm_build then
                                 Inr ((logger INFO (RpmPinned dgk (bd_nvr basis_event_build_dict)) s2)
                                        \<lparr>force_is := set_add pkg (force_is s2)\<rparr>)
                               else Inr s2))"

fun select_rpms_loop :: "env \<Rightarrow> brew_build_dict list \<Rightarrow> state \<Rightarrow> error + state" where
  "select_rpms_loop e [] s = Inr s"
| "select_rpms_loop e (r # rs) s =
     (case select_rpm e r s of
        Inl err \<Rightarrow> Inl err
      | Inr s' \<Rightarrow> select_rpms_loop e rs s')"

definition select_rpms :: "env \<Rightarrow> state \<Rightarrow> error + state" where
  "select_rpms e s =
     select_rpms_loop e (ref_releases_rpm_builds e s)
       (logger INFO (QueryingRpmBuilds (card (rpm_build_ids e s))) s)"

section \<open>\<open>_get_member_overrides\<close> and the assembly definition\<close>

definition why_pinned :: string where
  "why_pinned = ''Query from assembly basis event failed to replicate referenced nightly content exactly. Pinning to replicate.''"

record image_override =
  io_distgit_key :: string
  io_why :: string
  io_is_nvr :: string

text \<open>
  The \<open>is\<close> dictionary of an rpm override has one key per el version; the source spells
  the key of version \<open>n\<close> as \<open>el\<close> followed by \<open>n\<close>, the model keeps \<open>n\<close>.
\<close>

record rpm_override =
  ro_distgit_key :: string
  ro_why :: string
  ro_is :: "(nat \<times> string) list"

definition rpm_is_dict :: "(nat \<times> brew_build_dict) list \<Rightarrow> (nat \<times> string) list" where
  "rpm_is_dict by_el = fold (\<lambda>kv acc. AList.update (fst kv) (bd_nvr (snd kv)) acc) by_el []"

fun member_overrides_loop ::
  "env \<Rightarrow> state \<Rightarrow> string list \<Rightarrow> image_override list \<times> rpm_override list
     \<Rightarrow> error + image_override list \<times> rpm_override list" where
  "member_overrides_loop e s [] acc = Inr acc"
| "member_overrides_loop e s (pkg # pkgs) acc =
     (case map_of (component_image_builds s) pkg of
        Some build_inspector \<Rightarrow>
          member_overrides_loop e s pkgs
            (fst acc @ [\<lparr>io_distgit_key = distgit_key (bbi_image_meta build_inspector),
                         io_why = why_pinned, io_is_nvr = nvr build_inspector\<rparr>], snd acc)
      | None \<Rightarrow>
          (case map_of (component_rpm_builds s) pkg of
             Some by_el \<Rightarrow>
               (case map_of (package_rpm_meta e) pkg of
                  None \<Rightarrow> Inl (KeyError pkg)
                | Some rm \<Rightarrow>
                    member_overrides_loop e s pkgs
                      (fst acc, snd acc @ [\<lparr>ro_distgit_key = rpm_distgit_key rm,
                                             ro_why = why_pinned, ro_is = rpm_is_dict by_el\<rparr>]))
           | None \<Rightarrow> member_overrides_loop e s pkgs acc))"

definition get_member_overrides ::
  "env \<Rightarrow> state \<Rightarrow> error + image_override list \<times> rpm_override list" where
  "get_member_overrides e s = member_overrides_loop e s (force_is s) ([], [])"

text \<open>
  The assembly definition, without the \<open>type\<close> and the advisories, release ticket and
  upgrade edges of \<open>group\<close>, which come from the releases configuration and the
  upgrade graph.
\<close>

record assembly_definition =
  brew_event :: nat
  reference_releases :: "(string \<times> string) list"
  group_arches_override :: "string list option"
  rhcos :: "(string \<times> (string \<times> string) list) list"
  members_rpms :: "rpm_override list"
  members_images :: "image_override list"

definition generate_assembly_definition ::
  "env \<Rightarrow> bool \<Rightarrow> (string \<times> string) list \<Rightarrow> state \<Rightarrow> error + assembly_definition" where
  "generate_assembly_definition e custom reference_releases_by_arch s =
     (case get_member_overrides e s of
        Inl err \<Rightarrow> Inl err
      | Inr overrides \<Rightarrow>
          (case (if custom then
                   (case map_of (rhcos_by_tag s) (get_primary_container_name e) of
                      None \<Rightarrow> Inl (KeyError (get_primary_container_name e))
                    | Some by_arch \<Rightarrow> Inr (Some (map fst by_arch)))
                 else Inr None) of
             Inl err \<Rightarrow> Inl err
           | Inr arches \<Rightarrow>
               Inr \<lparr>brew_event = basis_event s,
                    reference_releases = reference_releases_by_arch,
                    group_arches_override = arches,
                    rhcos = rhcos_by_tag s,
                    members_rpms = snd overrides,
                    members_images = fst overrides\<rparr>))"

definition bind_err :: "error + 'a \<Rightarrow> ('a \<Rightarrow> error + 'b) \<Rightarrow> error + 'b" where
  "bind_err r f = (case r of Inl err \<Rightarrow> Inl err | Inr x \<Rightarrow> f x)"

text \<open>
  \<open>run\<close>, from the release pullspecs on: \<open>_select_images\<close>, \<open>_get_rhcos_container\<close>,
  \<open>_select_rpms\<close> and \<open>_generate_assembly_definition\<close>. The parameter checks and the
  previous-release list do not touch the fields modelled here.
\<close>

definition run_state :: "env \<Rightarrow> bool \<Rightarrow> (string \<times> string) list \<Rightarrow> error + state" where
  "run_state e custom release_pullspecs =
     bind_err (determine_basis_brew_event e release_pullspecs init_state) (\<lambda>s1.
     bind_err (collect_outliers e custom s1) (\<lambda>s2.
     bind_err (get_rhcos_container e custom s2) (\<lambda>s3.
     select_rpms e s3)))"

definition run ::
  "env \<Rightarrow> bool \<Rightarrow> (string \<times> string) list \<Rightarrow> (string \<times> string) list
     \<Rightarrow> error + assembly_definition" where
  "run e custom release_pullspecs reference_releases_by_arch =
     bind_err (run_state e custom release_pullspecs)
       (generate_assembly_definition e custom reference_releases_by_arch)"

section \<open>Predicates of the statements\<close>


definition release_eligible :: "image_meta \<Rightarrow> bool" where
  "release_eligible im = (\<not> base_only im \<and> for_release im)"

text \<open>The image is pinned by its round of the loop.\<close>
definition image_outlier :: "env \<Rightarrow> state \<Rightarrow> image_meta \<Rightarrow> bool" where
  "image_outlier e s im =
     (release_eligible im \<and> is_payload im \<and>
      (case image_latest_brew_build e im (basis_event s) of
         None \<Rightarrow> False
       | Some d \<Rightarrow>
           (case map_of (component_image_builds s) (component_name im) of
              None \<Rightarrow> False
            | Some ref \<Rightarrow> nvr (inspect_build_id e (bd_id d)) \<noteq> nvr ref)))"

text \<open>\<open>component_rpm_builds[package][el]\<close>, when both keys are there.\<close>
definition retained :: "state \<Rightarrow> string \<times> nat \<Rightarrow> brew_build_dict option" where
  "retained s k =
     (case map_of (component_rpm_builds s) (fst k) of None \<Rightarrow> None | Some d \<Rightarrow> map_of d (snd k))"

text \<open>The (package, el) pair of an rpm build of a package of the roster.\<close>
definition rpm_key :: "env \<Rightarrow> brew_build_dict \<Rightarrow> (string \<times> nat) option" where
  "rpm_key e r =
     (case map_of (package_rpm_meta e) (bd_package_name r) of
        None \<Rightarrow> None
      | Some rm \<Rightarrow>
          (case isolate_el_version_in_release e (bd_release r) of
             None \<Rightarrow> None
           | Some el \<Rightarrow> Some (bd_package_name r, el)))"

text \<open>The basis event selects another build than \<open>r\<close> for the pair of \<open>r\<close>.\<close>
definition rpm_outlier :: "env \<Rightarrow> nat \<Rightarrow> brew_build_dict \<Rightarrow> bool" where
  "rpm_outlier e ev r =
     (case map_of (package_rpm_meta e) (bd_package_name r) of
        None \<Rightarrow> False
      | Some rm \<Rightarrow>
          (case isolate_el_version_in_release e (bd_release r) of
             None \<Rightarrow> False
           | Some el \<Rightarrow>
               (case rpm_latest_brew_build e rm el ev of
                  None \<Rightarrow> False
                | Some d \<Rightarrow> bd_nvr d \<noteq> bd_nvr r)))"

text \<open>The builds the loop retains: the first build of the list for each pair not retained before.\<close>
definition newly_retained :: "env \<Rightarrow> state \<Rightarrow> brew_build_dict list \<Rightarrow> string \<times> nat \<Rightarrow> brew_build_dict option" where
  "newly_retained e s rs k =
     (case retained s k of Some x \<Rightarrow> None | None \<Rightarrow> find (\<lambda>r. rpm_key e r = Some k) rs)"






text \<open>
  What the payload phase hands on, with the dictionaries read as maps: the builds by
  package name, the basis instant, and the RHCOS pullspecs by tag and architecture.
\<close>
type_synonym payload_view =
  "(string \<rightharpoonup> inspector) \<times> real \<times> (string \<rightharpoonup> (string \<rightharpoonup> string))"

definition rhcos_view :: "state \<Rightarrow> string \<rightharpoonup> (string \<rightharpoonup> string)" where
  "rhcos_view s = (\<lambda>tag. map_option map_of (map_of (rhcos_by_tag s) tag))"

definition view :: "state \<Rightarrow> payload_view" where
  "view s = (map_of (component_image_builds s), basis_event_ts s, rhcos_view s)"




text \<open>The recorded builds are builds of \<open>G\<close>, each under its package name.\<close>
definition builds_within :: "inspector set \<Rightarrow> state \<Rightarrow> bool" where
  "builds_within G s =
     (\<forall>k b. map_of (component_image_builds s) k = Some b \<longrightarrow> b \<in> G \<and> package_name b = k)"

text \<open>
  Two states that later steps cannot tell apart: the same dictionaries up to the order
  of their keys, and the same basis event, RHCOS version, rpm builds and pins.
\<close>
definition sim :: "state \<Rightarrow> state \<Rightarrow> bool" where
  "sim s t =
     (map_of (component_image_builds s) = map_of (component_image_builds t)
      \<and> distinct (map fst (component_image_builds s))
      \<and> distinct (map fst (component_image_builds t))
      \<and> basis_event s = basis_event t
      \<and> rhcos_view s = rhcos_view t
      \<and> rhcos_version s = rhcos_version t
      \<and> component_rpm_builds s = component_rpm_builds t
      \<and> force_is s = force_is t)"

definition sim_result :: "error + state \<Rightarrow> error + state \<Rightarrow> bool" where
  "sim_result x y =
     (case x of Inl err \<Rightarrow> y = Inl err | Inr s' \<Rightarrow> (\<exists>t'. y = Inr t' \<and> sim s' t'))"



section \<open>Example inputs\<close>

definition ex_meta :: image_meta where
  "ex_meta = \<lparr>base_only = False, for_release = True, is_payload = True, distgit_key = ''x'',
     component_name = ''x'', payload_tag_info = (''foo'', True)\<rparr>"

definition ex_x1 :: inspector where
  "ex_x1 = \<lparr>package_name = ''x'', nvr = ''x-1'', brew_build_id = 1, completion_ts = 100,
     bbi_image_meta = ex_meta\<rparr>"

definition ex_x2 :: inspector where
  "ex_x2 = \<lparr>package_name = ''x'', nvr = ''x-2'', brew_build_id = 2, completion_ts = 200,
     bbi_image_meta = ex_meta\<rparr>"

definition ex_rpm :: "nat \<Rightarrow> string \<Rightarrow> string \<Rightarrow> string \<Rightarrow> brew_build_dict" where
  "ex_rpm i p n r = \<lparr>bd_id = i, bd_package_name = p, bd_nvr = n, bd_release = r\<rparr>"

definition ex_env :: env where
  "ex_env = \<lparr>
     oc_adm_release_info = (\<lambda>ps.
       if ps = ''relA'' then
         \<lparr>spec_tags = [\<lparr>tag_name = ''os'', tag_from = ''osA''\<rparr>,
                       \<lparr>tag_name = ''foo'', tag_from = ''img1''\<rparr>],
          machine_os_version = ''v''\<rparr>
       else
         \<lparr>spec_tags = [\<lparr>tag_name = ''os'', tag_from = ''osB''\<rparr>,
                       \<lparr>tag_name = ''foo'', tag_from = ''img2''\<rparr>],
          machine_os_version = ''v''\<rparr>),
     inspect_pullspec = (\<lambda>ps. if ps = ''img1'' then ex_x1 else ex_x2),
     inspect_build_id = (\<lambda>i. if i = 1 then ex_x1 else ex_x2),
     get_container_names = [''os''],
     getLastEvent = (\<lambda>t. if t < 0 then None else Some (nat \<lfloor>t\<rfloor>)),
     image_metas = [ex_meta],
     image_latest_brew_build = (\<lambda>im ev. Some (ex_rpm 1 ''x'' ''x-1'' ''1'')),
     package_rpm_meta = [(''r'', \<lparr>rpm_distgit_key = ''rk''\<rparr>)],
     rpm_latest_brew_build = (\<lambda>rm el ev.
       if el = 9 then Some (ex_rpm 10 ''r'' ''r-1.el9'' ''1.el9'') else None),
     isolate_el_version_in_release = (\<lambda>rel. if rel = ''1.el9'' then Some 9 else None),
     list_archives_by_builds = map (\<lambda>i. [[10, 11, 30]]),
     get_build_objects = (\<lambda>S. filter (\<lambda>b. bd_id b \<in> S)
       [ex_rpm 30 ''z'' ''z-1'' ''1'', ex_rpm 10 ''r'' ''r-0.el9'' ''1.el9'',
        ex_rpm 11 ''r'' ''r-1.el9'' ''1.el9'']),
     get_primary_container_name = ''os'',
     get_container_configs = [\<lparr>cfg_name = ''os'', build_metadata_key = ''oscontainer''\<rparr>],
     group_arches = [''a'', ''b''],
     rhcos_meta_json = (\<lambda>v arch. [])\<rparr>"



definition ex_s2 :: state where
  "ex_s2 = init_state\<lparr>component_image_builds := [(''x'', ex_x2)], basis_event_ts := 500\<rparr>"

definition ex_env_noimg :: env where
  "ex_env_noimg = ex_env\<lparr>image_latest_brew_build := (\<lambda>im ev. None)\<rparr>"

definition ex_env_norpm :: env where
  "ex_env_norpm = ex_env\<lparr>rpm_latest_brew_build := (\<lambda>rm el ev. None)\<rparr>"

definition ex_env_noel :: env where
  "ex_env_noel = ex_env\<lparr>isolate_el_version_in_release := (\<lambda>rel. None)\<rparr>"

definition ex_s3 :: state where
  "ex_s3 = init_state\<lparr>component_image_builds := [(''x'', ex_x2)], basis_event := 500,
     basis_event_ts := 500\<rparr>"




section \<open>Lemmas\<close>


lemma process_tag_ts:
  assumes "process_tag e arch ps ct s = Inr s'"
  shows "basis_event_ts s \<le> basis_event_ts s'"
  using assms
  by (auto simp: process_tag_def Let_def raise_basis_event_ts_def logger_def
           split: if_splits option.splits)


lemma process_tags_ts:
  "process_tags e arch ps cts s = Inr s' \<Longrightarrow> basis_event_ts s \<le> basis_event_ts s'"
proof (induction cts arbitrary: s)
  case Nil
  then show ?case by simp
next
  case (Cons ct cts)
  then obtain s1 where 1: "process_tag e arch ps ct s = Inr s1"
    and 2: "process_tags e arch ps cts s1 = Inr s'"
    by (auto split: sum.splits)
  from process_tag_ts[OF 1] Cons.IH[OF 2] show ?case by simp
qed









lemma set_set_add [simp]: "set (set_add x xs) = insert x (set xs)"
  by (auto simp: set_add_def)

lemma distinct_set_add: "distinct xs \<Longrightarrow> distinct (set_add x xs)"
  by (auto simp: set_add_def)

lemma collect_outlier_step:
  assumes "collect_outlier e custom im s = Inr s'"
  shows "basis_event s' = basis_event s"
    and "component_rpm_builds s' = component_rpm_builds s"
    and "rhcos_by_tag s' = rhcos_by_tag s"
    and "p \<noteq> component_name im \<Longrightarrow>
           map_of (component_image_builds s') p = map_of (component_image_builds s) p"
    and "set (force_is s') =
           set (force_is s) \<union> (if image_outlier e s im then {component_name im} else {})"
    and "release_eligible im \<Longrightarrow> image_latest_brew_build e im (basis_event s) \<noteq> None"
  using assms
  by (auto simp: collect_outlier_def Let_def logger_def image_outlier_def release_eligible_def
        AList.update_conv' split: if_splits option.splits)

lemma image_outlier_cong:
  assumes "basis_event s' = basis_event s"
    and "map_of (component_image_builds s') (component_name im)
         = map_of (component_image_builds s) (component_name im)"
  shows "image_outlier e s' im = image_outlier e s im"
  using assms by (auto simp: image_outlier_def split: option.splits)

lemma collect_outliers_loop_force_is:
  assumes "collect_outliers_loop e custom ims s = Inr s'"
    and "distinct (map component_name ims)"
  shows "set (force_is s') =
           set (force_is s) \<union> {component_name im | im. im \<in> set ims \<and> image_outlier e s im}"
  using assms
proof (induction ims arbitrary: s)
  case Nil
  then show ?case by simp
next
  case (Cons im ims)
  from Cons.prems(1) obtain s1 where 1: "collect_outlier e custom im s = Inr s1"
    and 2: "collect_outliers_loop e custom ims s1 = Inr s'"
    by (auto split: sum.splits)
  from Cons.prems(2) have d: "distinct (map component_name ims)"
    by simp
  have n: "component_name im' \<noteq> component_name im" if "im' \<in> set ims" for im'
    using that Cons.prems(2) by (auto simp: image_iff)
  have same: "\<And>im'. im' \<in> set ims \<Longrightarrow> image_outlier e s1 im' = image_outlier e s im'"
    using collect_outlier_step(1,4)[OF 1] n by (intro image_outlier_cong) auto
  have "set (force_is s') =
          set (force_is s1) \<union> {component_name im' | im'. im' \<in> set ims \<and> image_outlier e s1 im'}"
    using Cons.IH[OF 2 d] .
  also have "{component_name im' | im'. im' \<in> set ims \<and> image_outlier e s1 im'}
           = {component_name im' | im'. im' \<in> set ims \<and> image_outlier e s im'}"
    using same by blast
  finally show ?case
    using collect_outlier_step(5)[OF 1] by auto
qed

lemma collect_outliers_loop_frame:
  assumes "collect_outliers_loop e custom ims s = Inr s'"
  shows "basis_event s' = basis_event s \<and> component_rpm_builds s' = component_rpm_builds s
         \<and> rhcos_by_tag s' = rhcos_by_tag s"
  using assms
proof (induction ims arbitrary: s)
  case Nil
  then show ?case by simp
next
  case (Cons im ims)
  from Cons.prems(1) obtain s1 where 1: "collect_outlier e custom im s = Inr s1"
    and 2: "collect_outliers_loop e custom ims s1 = Inr s'"
    by (auto split: sum.splits)
  from Cons.IH[OF 2] collect_outlier_step(1,2,3)[OF 1] show ?case by simp
qed

lemma collect_outlier_basis:
  "collect_outlier e custom im s = Inr s' \<Longrightarrow> basis_event s' = basis_event s"
  by (rule collect_outlier_step(1))

lemma collect_outliers_loop_absent_fatal:
  assumes "im \<in> set ims" and "release_eligible im"
    and "image_latest_brew_build e im (basis_event s) = None"
  shows "\<exists>dgk. collect_outliers_loop e custom ims s = Inl (NoImageFound dgk (basis_event s))"
  using assms
proof (induction ims arbitrary: s)
  case Nil
  then show ?case by simp
next
  case (Cons im' ims)
  show ?case
  proof (cases "collect_outlier e custom im' s")
    case (Inl err)
    then have "err = NoImageFound (distgit_key im') (basis_event s)"
      by (auto simp: collect_outlier_def Let_def split: if_splits option.splits)
    with Inl show ?thesis by simp
  next
    case (Inr s1)
    have b: "basis_event s1 = basis_event s" using collect_outlier_step(1)[OF Inr] .
    have "im \<noteq> im'"
      using collect_outlier_step(6)[OF Inr] Cons.prems(2,3) by auto
    with Cons.prems(1) have "im \<in> set ims" by simp
    from Cons.prems(3) b have "image_latest_brew_build e im (basis_event s1) = None" by simp
    from Cons.IH[OF \<open>im \<in> set ims\<close> Cons.prems(2) this] b Inr show ?thesis by simp
  qed
qed

lemma collect_outliers_loop_total:
  assumes "\<forall>im \<in> set ims. release_eligible im \<longrightarrow> image_latest_brew_build e im (basis_event s) \<noteq> None"
  shows "\<exists>s'. collect_outliers_loop e custom ims s = Inr s'"
  using assms
proof (induction ims arbitrary: s)
  case Nil
  then show ?case by simp
next
  case (Cons im ims)
  have "\<exists>s1. collect_outlier e custom im s = Inr s1"
    using Cons.prems
    by (auto simp: collect_outlier_def Let_def release_eligible_def split: option.splits)
  then obtain s1 where 1: "collect_outlier e custom im s = Inr s1" ..
  have "basis_event s1 = basis_event s" using collect_outlier_step(1)[OF 1] .
  with Cons.prems have "\<exists>s'. collect_outliers_loop e custom ims s1 = Inr s'"
    by (intro Cons.IH) simp
  with 1 show ?case by simp
qed

lemma select_rpm_not_roster:
  "map_of (package_rpm_meta e) (bd_package_name r) = None \<Longrightarrow> select_rpm e r s = Inr s"
  by (simp add: select_rpm_def)

lemma select_rpm_unparsed:
  assumes "map_of (package_rpm_meta e) (bd_package_name r) = Some rm"
    and "isolate_el_version_in_release e (bd_release r) = None"
  shows "select_rpm e r s = Inl (UnableToIsolateEl (bd_nvr r))"
  using assms by (simp add: select_rpm_def)

lemma retained_SomeD:
  "retained s (p, el) = Some x \<Longrightarrow>
     \<exists>d. map_of (component_rpm_builds s) p = Some d \<and> map_of d el = Some x"
  by (auto simp: retained_def split: option.splits)

lemma select_rpm_duplicate:
  assumes "rpm_key e r = Some k" and "snd k \<noteq> 0" and "retained s k = Some x"
  shows "select_rpm e r s = Inr s"
proof -
  obtain p el where k: "k = (p, el)" by (cases k)
  from assms(1) k obtain rm where rm: "map_of (package_rpm_meta e) (bd_package_name r) = Some rm"
    and el: "isolate_el_version_in_release e (bd_release r) = Some el"
    and p: "p = bd_package_name r"
    by (auto simp: rpm_key_def split: option.splits)
  from assms(3) k obtain d where d: "map_of (component_rpm_builds s) p = Some d"
    and x: "map_of d el = Some x"
    by (auto dest: retained_SomeD)
  from x have "el \<in> fst ` set d" by (rule map_of_SomeD[THEN imageI, of _ _ _ fst, simplified])
  with rm el p d assms(2) k show ?thesis
    by (simp add: select_rpm_def Let_def)
qed

lemma select_rpm_new:
  assumes "select_rpm e r s = Inr s'" and "rpm_key e r = Some k" and "retained s k = None"
  shows "retained s' = (retained s)(k \<mapsto> r)"
    and "set (force_is s') = set (force_is s) \<union> (if rpm_outlier e (basis_event s) r then {fst k} else {})"
    and "\<exists>rm d. map_of (package_rpm_meta e) (fst k) = Some rm
           \<and> rpm_latest_brew_build e rm (snd k) (basis_event s) = Some d"
    and "snd k \<noteq> 0"
proof -
  obtain p el where k: "k = (p, el)" by (cases k)
  from assms(2) k obtain rm where rm: "map_of (package_rpm_meta e) (bd_package_name r) = Some rm"
    and el: "isolate_el_version_in_release e (bd_release r) = Some el"
    and p: "p = bd_package_name r"
    by (auto simp: rpm_key_def split: option.splits)
  define by_el where "by_el = (case map_of (component_rpm_builds s) p of None \<Rightarrow> [] | Some d \<Rightarrow> d)"
  have notin: "el \<notin> fst ` set by_el"
  proof
    assume "el \<in> fst ` set by_el"
    then obtain x where "map_of by_el el = Some x"
      by (metis domD dom_map_of_conv_image_fst)
    with assms(3) k show False
      by (auto simp: retained_def by_el_def split: option.splits)
  qed
  from assms(1) rm el have el0: "el \<noteq> 0"
    by (auto simp: select_rpm_def Let_def split: if_splits)
  with k show "snd k \<noteq> 0" by simp
  from assms(1) rm el el0 notin obtain d where
    d: "rpm_latest_brew_build e rm el (basis_event s) = Some d"
    by (cases "rpm_latest_brew_build e rm el (basis_event s)")
       (auto simp: select_rpm_def Let_def by_el_def p)
  with rm k p show "\<exists>rm d. map_of (package_rpm_meta e) (fst k) = Some rm
           \<and> rpm_latest_brew_build e rm (snd k) (basis_event s) = Some d"
    by simp
  have crb: "component_rpm_builds s' =
      AList.update p (AList.update el r by_el)
        (case map_of (component_rpm_builds s) p of
           None \<Rightarrow> AList.update p [] (component_rpm_builds s)
         | Some d \<Rightarrow> component_rpm_builds s)"
    using assms(1) rm el el0 notin d
    by (auto simp: select_rpm_def Let_def by_el_def p logger_def split: if_splits option.splits)
  show "retained s' = (retained s)(k \<mapsto> r)"
  proof
    fix q :: "string \<times> nat"
    obtain p' el' where q: "q = (p', el')" by (cases q)
    show "retained s' q = ((retained s)(k \<mapsto> r)) q"
      unfolding q k
      by (auto simp: retained_def crb AList.update_conv' by_el_def split: option.splits)
  qed
  have out: "rpm_outlier e (basis_event s) r = (bd_nvr d \<noteq> bd_nvr r)"
    using rm el d by (simp add: rpm_outlier_def)
  show "set (force_is s') = set (force_is s) \<union> (if rpm_outlier e (basis_event s) r then {fst k} else {})"
    using assms(1) rm el el0 notin d unfolding out k
    by (auto simp: select_rpm_def Let_def by_el_def p logger_def split: if_splits option.splits)
qed

lemma select_rpm_frame:
  assumes "select_rpm e r s = Inr s'"
  shows "basis_event s' = basis_event s"
    and "component_image_builds s' = component_image_builds s"
    and "rhcos_by_tag s' = rhcos_by_tag s"
  using assms
  by (auto simp: select_rpm_def Let_def logger_def split: if_splits option.splits)

lemma select_rpm_Inr_key:
  assumes "select_rpm e r s = Inr s'"
    and "map_of (package_rpm_meta e) (bd_package_name r) = Some rm"
  shows "\<exists>el. rpm_key e r = Some (bd_package_name r, el) \<and> el \<noteq> 0"
  using assms
  by (auto simp: select_rpm_def rpm_key_def Let_def split: if_splits option.splits)

lemma select_rpms_loop_frame:
  assumes "select_rpms_loop e rs s = Inr s'"
  shows "basis_event s' = basis_event s \<and> component_image_builds s' = component_image_builds s
         \<and> rhcos_by_tag s' = rhcos_by_tag s"
  using assms
proof (induction rs arbitrary: s)
  case Nil
  then show ?case by simp
next
  case (Cons r rs)
  from Cons.prems obtain s1 where 1: "select_rpm e r s = Inr s1"
    and 2: "select_rpms_loop e rs s1 = Inr s'"
    by (auto split: sum.splits)
  from Cons.IH[OF 2] select_rpm_frame[OF 1] show ?case by simp
qed

text \<open>What one round does to the retained builds, whenever it returns.\<close>
lemma select_rpm_retained:
  assumes "select_rpm e r s = Inr s'"
  shows "retained s' =
           (case rpm_key e r of
              None \<Rightarrow> retained s
            | Some k \<Rightarrow> (case retained s k of None \<Rightarrow> (retained s)(k \<mapsto> r) | Some x \<Rightarrow> retained s))"
proof (cases "rpm_key e r")
  case None
  then have "map_of (package_rpm_meta e) (bd_package_name r) = None"
    using select_rpm_Inr_key[OF assms] by (cases "map_of (package_rpm_meta e) (bd_package_name r)") auto
  with assms None show ?thesis by (simp add: select_rpm_not_roster)
next
  case (Some k)
  then obtain rm where rm: "map_of (package_rpm_meta e) (bd_package_name r) = Some rm"
    by (auto simp: rpm_key_def split: option.splits)
  from select_rpm_Inr_key[OF assms rm] Some have k0: "snd k \<noteq> 0" by auto
  show ?thesis
  proof (cases "retained s k")
    case None
    with select_rpm_new(1)[OF assms Some None] Some show ?thesis by simp
  next
    case (Some x)
    from select_rpm_duplicate[OF \<open>rpm_key e r = Some k\<close> k0 Some] assms have "s' = s" by simp
    with Some \<open>rpm_key e r = Some k\<close> show ?thesis by simp
  qed
qed

lemma select_rpms_loop_retained:
  assumes "select_rpms_loop e rs s = Inr s'"
  shows "retained s' k =
           (case retained s k of
              Some x \<Rightarrow> Some x
            | None \<Rightarrow> find (\<lambda>r. rpm_key e r = Some k) rs)"
  using assms
proof (induction rs arbitrary: s)
  case Nil
  then show ?case by (simp split: option.splits)
next
  case (Cons r rs)
  from Cons.prems obtain s1 where 1: "select_rpm e r s = Inr s1"
    and 2: "select_rpms_loop e rs s1 = Inr s'"
    by (auto split: sum.splits)
  note step = select_rpm_retained[OF 1]
  note ih = Cons.IH[OF 2]
  show ?case
    unfolding ih step
    by (auto split: option.splits)
qed

lemma select_rpm_force_is:
  assumes "select_rpm e r s = Inr s'"
  shows "set (force_is s') =
           set (force_is s) \<union>
           (case rpm_key e r of
              None \<Rightarrow> {}
            | Some k \<Rightarrow> if retained s k = None \<and> rpm_outlier e (basis_event s) r then {fst k} else {})"
proof (cases "rpm_key e r")
  case None
  then have "map_of (package_rpm_meta e) (bd_package_name r) = None"
    using select_rpm_Inr_key[OF assms] by (cases "map_of (package_rpm_meta e) (bd_package_name r)") auto
  with assms None show ?thesis by (simp add: select_rpm_not_roster)
next
  case (Some k)
  then obtain rm where rm: "map_of (package_rpm_meta e) (bd_package_name r) = Some rm"
    by (auto simp: rpm_key_def split: option.splits)
  from select_rpm_Inr_key[OF assms rm] Some have k0: "snd k \<noteq> 0" by auto
  show ?thesis
  proof (cases "retained s k")
    case None
    with select_rpm_new(2)[OF assms Some None] Some show ?thesis by simp
  next
    case (Some x)
    from select_rpm_duplicate[OF \<open>rpm_key e r = Some k\<close> k0 Some] assms have "s' = s" by simp
    with Some \<open>rpm_key e r = Some k\<close> show ?thesis by simp
  qed
qed

lemma select_rpms_loop_force_is:
  assumes "select_rpms_loop e rs s = Inr s'"
  shows "set (force_is s') =
           set (force_is s) \<union>
           {fst k | k r. newly_retained e s rs k = Some r \<and> rpm_outlier e (basis_event s) r}"
  using assms
proof (induction rs arbitrary: s)
  case Nil
  then show ?case by (auto simp: newly_retained_def split: option.splits)
next
  case (Cons r rs)
  from Cons.prems obtain s1 where 1: "select_rpm e r s = Inr s1"
    and 2: "select_rpms_loop e rs s1 = Inr s'"
    by (auto split: sum.splits)
  have b: "basis_event s1 = basis_event s" using select_rpm_frame(1)[OF 1] .
  note ret = select_rpm_retained[OF 1]
  note fi = select_rpm_force_is[OF 1]
  have ih: "set (force_is s') = set (force_is s1) \<union>
      {fst k | k r'. newly_retained e s1 rs k = Some r' \<and> rpm_outlier e (basis_event s) r'}"
    using Cons.IH[OF 2] b by simp
  show ?case
  proof (cases "rpm_key e r")
    case None
    with ret fi have eq: "retained s1 = retained s" "set (force_is s1) = set (force_is s)" by simp_all
    have "newly_retained e s (r # rs) k = newly_retained e s1 rs k" for k
      using None eq by (auto simp: newly_retained_def split: option.splits)
    with ih eq show ?thesis by simp
  next
    case (Some k')
    show ?thesis
    proof (cases "retained s k'")
      case (Some x)
      with ret fi \<open>rpm_key e r = Some k'\<close>
      have eq: "retained s1 = retained s" "set (force_is s1) = set (force_is s)" by simp_all
      have "newly_retained e s (r # rs) k = newly_retained e s1 rs k" for k
        using Some \<open>rpm_key e r = Some k'\<close> eq
        by (auto simp: newly_retained_def split: option.splits)
      with ih eq show ?thesis by simp
    next
      case None
      with ret fi \<open>rpm_key e r = Some k'\<close>
      have r1: "retained s1 = (retained s)(k' \<mapsto> r)"
        and f1: "set (force_is s1) = set (force_is s) \<union>
                   (if rpm_outlier e (basis_event s) r then {fst k'} else {})"
        by simp_all
      have n1: "newly_retained e s (r # rs) k' = Some r"
        using None \<open>rpm_key e r = Some k'\<close> by (simp add: newly_retained_def)
      have n2: "newly_retained e s1 rs k' = None"
        using r1 by (simp add: newly_retained_def)
      have n3: "newly_retained e s (r # rs) k = newly_retained e s1 rs k" if "k \<noteq> k'" for k
        using that r1 \<open>rpm_key e r = Some k'\<close> by (auto simp: newly_retained_def split: option.splits)
      have "{fst k | k r'. newly_retained e s (r # rs) k = Some r' \<and> rpm_outlier e (basis_event s) r'}
          = {fst k | k r'. newly_retained e s1 rs k = Some r' \<and> rpm_outlier e (basis_event s) r'}
            \<union> (if rpm_outlier e (basis_event s) r then {fst k'} else {})"
        (is "?L = ?R \<union> ?N")
      proof (intro set_eqI iffI)
        fix p assume "p \<in> ?L"
        then obtain k r' where p: "p = fst k" and nr: "newly_retained e s (r # rs) k = Some r'"
          and o: "rpm_outlier e (basis_event s) r'" by blast
        show "p \<in> ?R \<union> ?N"
        proof (cases "k = k'")
          case True
          with nr n1 have "r' = r" by simp
          with o p True show ?thesis by simp
        next
          case False
          with n3 nr have "newly_retained e s1 rs k = Some r'" by simp
          with o p show ?thesis by blast
        qed
      next
        fix p assume "p \<in> ?R \<union> ?N"
        then consider "p \<in> ?R" | "p \<in> ?N" by blast
        then show "p \<in> ?L"
        proof cases
          case 1
          then obtain k r' where p: "p = fst k" and nr: "newly_retained e s1 rs k = Some r'"
            and o: "rpm_outlier e (basis_event s) r'" by blast
          from nr n2 have "k \<noteq> k'" by auto
          with n3 nr have "newly_retained e s (r # rs) k = Some r'" by simp
          with o p show ?thesis by blast
        next
          case 2
          then have "rpm_outlier e (basis_event s) r" and "p = fst k'"
            by (auto split: if_splits)
          with n1 show ?thesis by blast
        qed
      qed
      with ih f1 show ?thesis by auto
    qed
  qed
qed

lemma select_rpms_loop_unparsed_fatal:
  assumes "r \<in> set rs"
    and "map_of (package_rpm_meta e) (bd_package_name r) = Some rm"
    and "isolate_el_version_in_release e (bd_release r) = None"
  shows "\<exists>err. select_rpms_loop e rs s = Inl err"
  using assms(1)
proof (induction rs arbitrary: s)
  case Nil
  then show ?case by simp
next
  case (Cons r' rs)
  show ?case
  proof (cases "select_rpm e r' s")
    case (Inl err)
    then show ?thesis by simp
  next
    case (Inr s1)
    have "r \<noteq> r'"
      using Inr select_rpm_unparsed[OF assms(2,3), of s] by auto
    with Cons.prems have "r \<in> set rs" by simp
    from Cons.IH[OF this, of s1] Inr show ?thesis by simp
  qed
qed

lemma select_rpms_loop_absent_fatal:
  assumes "r \<in> set rs"
    and "rpm_key e r = Some (p, el)"
    and "retained s (p, el) = None"
    and "map_of (package_rpm_meta e) p = Some rm"
    and "rpm_latest_brew_build e rm el (basis_event s) = None"
  shows "\<exists>err. select_rpms_loop e rs s = Inl err"
  using assms(1,3,5)
proof (induction rs arbitrary: s)
  case Nil
  then show ?case by simp
next
  case (Cons r' rs)
  show ?case
  proof (cases "select_rpm e r' s")
    case (Inl err)
    then show ?thesis by simp
  next
    case (Inr s1)
    have b: "basis_event s1 = basis_event s" using select_rpm_frame(1)[OF Inr] .
    have no: "rpm_key e r' \<noteq> Some (p, el)"
    proof
      assume k: "rpm_key e r' = Some (p, el)"
      from select_rpm_new(3)[OF Inr k Cons.prems(2)] assms(4) Cons.prems(3)
      show False by auto
    qed
    with assms(2) have "r \<noteq> r'" by auto
    with Cons.prems(1) have in_rs: "r \<in> set rs" by simp
    have "retained s1 (p, el) = None"
      using select_rpm_retained[OF Inr] no Cons.prems(2)
      by (auto split: option.splits)
    from Cons.IH[OF in_rs this] Cons.prems(3) b Inr show ?thesis by simp
  qed
qed

lemma select_rpms_loop_filter_roster:
  "select_rpms_loop e (filter (\<lambda>r. map_of (package_rpm_meta e) (bd_package_name r) \<noteq> None) rs) s
     = select_rpms_loop e rs s"
  by (induction rs arbitrary: s) (auto simp: select_rpm_not_roster split: sum.splits)

lemma run_collect_fail:
  assumes "determine_basis_brew_event e rels init_state = Inr s1"
    and "collect_outliers e custom s1 = Inl err"
  shows "run e custom rels refs = Inl err"
  using assms by (simp add: run_def run_state_def bind_err_def)

lemma run_select_fail:
  assumes "determine_basis_brew_event e rels init_state = Inr s1"
    and "collect_outliers e custom s1 = Inr s2"
    and "get_rhcos_container e custom s2 = Inr s3"
    and "select_rpms e s3 = Inl err"
  shows "run e custom rels refs = Inl err"
  using assms by (simp add: run_def run_state_def bind_err_def)

lemma retained_logger [simp]: "retained (logger lvl ev s) = retained s"
  by (rule ext) (simp add: retained_def logger_def)

lemma basis_event_logger [simp]: "basis_event (logger lvl ev s) = basis_event s"
  by (simp add: logger_def)

lemma force_is_logger [simp]: "force_is (logger lvl ev s) = force_is s"
  by (simp add: logger_def)

lemma find_rpm_key:
  "find (\<lambda>r. rpm_key e r = Some (pkg, el)) rs =
   find (\<lambda>r. bd_package_name r = pkg \<and> map_of (package_rpm_meta e) pkg \<noteq> None
              \<and> isolate_el_version_in_release e (bd_release r) = Some el) rs"
proof -
  have "(rpm_key e r = Some (pkg, el)) =
        (bd_package_name r = pkg \<and> map_of (package_rpm_meta e) pkg \<noteq> None
           \<and> isolate_el_version_in_release e (bd_release r) = Some el)" for r
    by (auto simp: rpm_key_def split: option.splits)
  then show ?thesis by simp
qed

lemmas ex_eval = ex_env_def ex_meta_def ex_x1_def ex_x2_def ex_rpm_def ex_s3_def init_state_def
  select_rpms_def select_rpm_def rpm_build_ids_def ref_releases_rpm_builds_def logger_def
  set_add_def Let_def retained_def

lemmas ex_run = ex_env_noimg_def ex_env_norpm_def ex_env_noel_def ex_eval
  process_release_def process_tag_def raise_basis_event_ts_def rhcos_setdefault_put_def
  determine_basis_brew_event_def collect_outliers_def collect_outlier_def
  get_rhcos_container_def rhcos_for_arch_def
















lemma view_frame [simp]:
  "view (logger lvl ev s) = view s" "view (s\<lparr>rhcos_version := v\<rparr>) = view s"
  "builds_within G (logger lvl ev s) = builds_within G s"
  "builds_within G (s\<lparr>rhcos_version := v\<rparr>) = builds_within G s"
  by (simp_all add: view_def rhcos_view_def logger_def builds_within_def)
















lemma sim_result_Inl [simp]: "sim_result (Inl err) y = (y = Inl err)"
  by (simp add: sim_result_def)

lemma sim_result_Inr [simp]: "sim_result (Inr s') y = (\<exists>t'. y = Inr t' \<and> sim s' t')"
  by (simp add: sim_result_def)

lemma sim_logger [simp]:
  "sim (logger lvl ev s) t = sim s t" "sim s (logger lvl ev t) = sim s t"
  by (simp_all add: sim_def logger_def rhcos_view_def)

lemma sim_cib_update:
  assumes "sim s t"
  shows "sim (s\<lparr>component_image_builds := AList.update k v (component_image_builds s)\<rparr>)
             (t\<lparr>component_image_builds := AList.update k v (component_image_builds t)\<rparr>)"
  using assms
  by (simp add: sim_def rhcos_view_def AList.update_conv' AList.distinct_update)

lemma sim_force_is:
  assumes "sim s t"
  shows "sim (s\<lparr>force_is := set_add k (force_is s)\<rparr>) (t\<lparr>force_is := set_add k (force_is t)\<rparr>)"
  using assms by (simp add: sim_def rhcos_view_def)























section \<open>Properties of the reconciliation\<close>





text \<open>
  C3. \<open>_collect_outliers\<close>, when every image has its own component name, adds a package
  to \<open>force_is\<close> exactly when a release-eligible payload image of that name has a build
  observed in the payloads whose NVR differs from the NVR of the build the basis-event
  query returns. \<open>_select_rpms\<close> adds a package exactly when, for some el version, the
  build it retains for the pair has an NVR other than the one the basis-event query
  returns for that package and el version. Equal NVRs add nothing.
\<close>

theorem pinned_iff_basis_build_differs:
  assumes "collect_outliers e custom s = Inr s2"
    and "distinct (map component_name (image_metas e))"
    and "select_rpms e s3 = Inr s4"
  shows "(\<forall>pkg. pkg \<in> set (force_is s2) \<longleftrightarrow>
            pkg \<in> set (force_is s) \<or>
            (\<exists>im \<in> set (image_metas e). component_name im = pkg
               \<and> \<not> base_only im \<and> for_release im \<and> is_payload im
               \<and> (\<exists>d ref. image_latest_brew_build e im (basis_event s) = Some d
                     \<and> map_of (component_image_builds s) pkg = Some ref
                     \<and> nvr (inspect_build_id e (bd_id d)) \<noteq> nvr ref)))
       \<and> (\<forall>pkg. pkg \<in> set (force_is s4) \<longleftrightarrow>
            pkg \<in> set (force_is s3) \<or>
            (\<exists>el r rm d. retained s3 (pkg, el) = None \<and> retained s4 (pkg, el) = Some r
               \<and> map_of (package_rpm_meta e) pkg = Some rm
               \<and> rpm_latest_brew_build e rm el (basis_event s3) = Some d
               \<and> bd_nvr d \<noteq> bd_nvr r))"
proof -
  have io: "image_outlier e s im =
      (\<not> base_only im \<and> for_release im \<and> is_payload im
         \<and> (\<exists>d ref. image_latest_brew_build e im (basis_event s) = Some d
               \<and> map_of (component_image_builds s) (component_name im) = Some ref
               \<and> nvr (inspect_build_id e (bd_id d)) \<noteq> nvr ref))" for im
    by (auto simp: image_outlier_def release_eligible_def split: option.splits)
  have A: "pkg \<in> set (force_is s2) \<longleftrightarrow>
            pkg \<in> set (force_is s) \<or>
            (\<exists>im \<in> set (image_metas e). component_name im = pkg
               \<and> \<not> base_only im \<and> for_release im \<and> is_payload im
               \<and> (\<exists>d ref. image_latest_brew_build e im (basis_event s) = Some d
                     \<and> map_of (component_image_builds s) pkg = Some ref
                     \<and> nvr (inspect_build_id e (bd_id d)) \<noteq> nvr ref))" for pkg
    using collect_outliers_loop_force_is[OF assms(1)[unfolded collect_outliers_def] assms(2)]
    by (auto simp: io)
  let ?s = "logger INFO (QueryingRpmBuilds (card (rpm_build_ids e s3))) s3"
  let ?rs = "ref_releases_rpm_builds e s3"
  from assms(3) have loop: "select_rpms_loop e ?rs ?s = Inr s4"
    by (simp add: select_rpms_def)
  note fi = select_rpms_loop_force_is[OF loop]
  note ret = select_rpms_loop_retained[OF loop]
  have B: "pkg \<in> set (force_is s4) \<longleftrightarrow>
            pkg \<in> set (force_is s3) \<or>
            (\<exists>el r rm d. retained s3 (pkg, el) = None \<and> retained s4 (pkg, el) = Some r
               \<and> map_of (package_rpm_meta e) pkg = Some rm
               \<and> rpm_latest_brew_build e rm el (basis_event s3) = Some d
               \<and> bd_nvr d \<noteq> bd_nvr r)" (is "?L \<longleftrightarrow> ?F \<or> ?R") for pkg
  proof
    assume ?L
    with fi consider "pkg \<in> set (force_is s3)"
      | k r where "pkg = fst k" "newly_retained e ?s ?rs k = Some r" "rpm_outlier e (basis_event s3) r"
      by auto
    then show "?F \<or> ?R"
    proof cases
      case 1
      then show ?thesis by simp
    next
      case 2
      obtain p el where k: "k = (p, el)" by (cases k)
      from 2(2) have none: "retained s3 k = None"
        and f: "find (\<lambda>r. rpm_key e r = Some k) ?rs = Some r"
        by (auto simp: newly_retained_def split: option.splits)
      from f have key: "rpm_key e r = Some k" by (auto simp: find_Some_iff)
      from ret[of k] none f have r4: "retained s4 k = Some r" by simp
      from key k obtain rm where rm: "map_of (package_rpm_meta e) p = Some rm"
        and el: "isolate_el_version_in_release e (bd_release r) = Some el"
        and p: "bd_package_name r = p"
        by (auto simp: rpm_key_def split: option.splits)
      from 2(3) rm el p obtain d where "rpm_latest_brew_build e rm el (basis_event s3) = Some d"
        and "bd_nvr d \<noteq> bd_nvr r"
        by (auto simp: rpm_outlier_def split: option.splits)
      with none r4 rm k 2(1) show ?thesis by auto
    qed
  next
    assume "?F \<or> ?R"
    then show ?L
    proof
      assume ?F
      with fi show ?L by simp
    next
      assume ?R
      then obtain el r rm d where none: "retained s3 (pkg, el) = None"
        and r4: "retained s4 (pkg, el) = Some r"
        and rm: "map_of (package_rpm_meta e) pkg = Some rm"
        and d: "rpm_latest_brew_build e rm el (basis_event s3) = Some d"
        and ne: "bd_nvr d \<noteq> bd_nvr r" by blast
      from ret[of "(pkg, el)"] none r4
      have f: "find (\<lambda>r. rpm_key e r = Some (pkg, el)) ?rs = Some r" by simp
      then have key: "rpm_key e r = Some (pkg, el)" by (auto simp: find_Some_iff)
      then have el: "isolate_el_version_in_release e (bd_release r) = Some el"
        and p: "bd_package_name r = pkg"
        by (auto simp: rpm_key_def split: option.splits)
      have "newly_retained e ?s ?rs (pkg, el) = Some r"
        using none f by (simp add: newly_retained_def)
      moreover have "rpm_outlier e (basis_event s3) r"
        using rm el p d ne by (simp add: rpm_outlier_def)
      ultimately show ?L using fi by force
    qed
  qed
  from A B show ?thesis by blast
qed

theorem pinned_iff_basis_build_differs_witness:
  "\<exists>s2 s4. collect_outliers ex_env False ex_s3 = Inr s2 \<and> select_rpms ex_env s2 = Inr s4
     \<and> ''x'' \<in> set (force_is s2) \<and> ''r'' \<notin> set (force_is s2)
     \<and> ''r'' \<in> set (force_is s4) \<and> ''z'' \<notin> set (force_is s4)"
proof -
  let ?r = "ex_rpm 10 ''r'' ''r-0.el9'' ''1.el9''"
  have "\<exists>s2 s4. collect_outliers ex_env False ex_s3 = Inr s2 \<and> select_rpms ex_env s2 = Inr s4
      \<and> retained s2 (''r'', 9) = None \<and> retained s4 (''r'', 9) = Some ?r
      \<and> basis_event s2 = 500"
    by (simp add: ex_run)
  then obtain s2 s4 where c: "collect_outliers ex_env False ex_s3 = Inr s2"
    and s: "select_rpms ex_env s2 = Inr s4"
    and r2: "retained s2 (''r'', 9) = None" and r4: "retained s4 (''r'', 9) = Some ?r"
    and b: "basis_event s2 = 500"
    by blast
  have d: "distinct (map component_name (image_metas ex_env))"
    by (simp add: ex_env_def)
  note T = pinned_iff_basis_build_differs[OF c d s]
  have f0: "force_is ex_s3 = []" "image_metas ex_env = [ex_meta]" "component_name ex_meta = ''x''"
    "\<not> base_only ex_meta" "for_release ex_meta" "is_payload ex_meta"
    "image_latest_brew_build ex_env ex_meta (basis_event ex_s3) = Some (ex_rpm 1 ''x'' ''x-1'' ''1'')"
    "map_of (component_image_builds ex_s3) ''x'' = Some ex_x2"
    "nvr (inspect_build_id ex_env (bd_id (ex_rpm 1 ''x'' ''x-1'' ''1''))) \<noteq> nvr ex_x2"
    by (simp_all add: ex_s3_def init_state_def ex_env_def ex_meta_def ex_rpm_def ex_x1_def ex_x2_def)
  from T[THEN conjunct1, THEN spec, of "''x''"] have x2: "''x'' \<in> set (force_is s2)"
    using f0 by simp
  from T[THEN conjunct1, THEN spec, of "''r''"] have nr2: "''r'' \<notin> set (force_is s2)"
    using f0 by simp
  from T[THEN conjunct1, THEN spec, of "''z''"] have nz2: "''z'' \<notin> set (force_is s2)"
    using f0 by simp
  have m: "map_of (package_rpm_meta ex_env) ''r'' = Some \<lparr>rpm_distgit_key = ''rk''\<rparr>"
    "map_of (package_rpm_meta ex_env) ''z'' = None"
    "rpm_latest_brew_build ex_env \<lparr>rpm_distgit_key = ''rk''\<rparr> 9 500
       = Some (ex_rpm 10 ''r'' ''r-1.el9'' ''1.el9'')"
    "bd_nvr (ex_rpm 10 ''r'' ''r-1.el9'' ''1.el9'') \<noteq> bd_nvr ?r"
    by (simp_all add: ex_env_def ex_rpm_def)
  from T[THEN conjunct2, THEN spec, of "''r''"] have r4': "''r'' \<in> set (force_is s4)"
    using r2 r4 b m by auto
  from T[THEN conjunct2, THEN spec, of "''z''"] have nz4: "''z'' \<notin> set (force_is s4)"
    using nz2 m by simp
  from c s x2 nr2 r4' nz4 show ?thesis by blast
qed




text \<open>
  C5. If the basis-event query returns no build for a release-eligible image,
  \<open>_collect_outliers\<close> ends in an error, and so does the run that reached it. If it
  returns no build for the package and el version of an rpm build of the roster whose
  pair is not retained yet, \<open>_select_rpms\<close> ends in an error, and so does the run: no
  assembly definition is returned.
\<close>

theorem absent_basis_build_is_fatal:
  shows "(\<forall>im \<in> set (image_metas e).
            \<not> base_only im \<and> for_release im
            \<and> image_latest_brew_build e im (basis_event s1) = None
          \<longrightarrow> (\<exists>err. collect_outliers e custom s1 = Inl err
                 \<and> (determine_basis_brew_event e rels init_state = Inr s1
                      \<longrightarrow> run e custom rels refs = Inl err)))
       \<and> (\<forall>r \<in> set (ref_releases_rpm_builds e s3). \<forall>rm el.
            map_of (package_rpm_meta e) (bd_package_name r) = Some rm
            \<and> isolate_el_version_in_release e (bd_release r) = Some el
            \<and> retained s3 (bd_package_name r, el) = None
            \<and> rpm_latest_brew_build e rm el (basis_event s3) = None
          \<longrightarrow> (\<exists>err. select_rpms e s3 = Inl err
                 \<and> (determine_basis_brew_event e rels init_state = Inr s1
                      \<and> collect_outliers e custom s1 = Inr s2
                      \<and> get_rhcos_container e custom s2 = Inr s3
                      \<longrightarrow> run e custom rels refs = Inl err)))"
proof (intro conjI ballI allI impI)
  fix im
  assume im: "im \<in> set (image_metas e)"
    and h: "\<not> base_only im \<and> for_release im \<and> image_latest_brew_build e im (basis_event s1) = None"
  then have "release_eligible im" by (simp add: release_eligible_def)
  from collect_outliers_loop_absent_fatal[OF im this, of e s1 custom] h
  obtain dgk where "collect_outliers e custom s1 = Inl (NoImageFound dgk (basis_event s1))"
    by (auto simp: collect_outliers_def)
  then show "\<exists>err. collect_outliers e custom s1 = Inl err
                 \<and> (determine_basis_brew_event e rels init_state = Inr s1
                      \<longrightarrow> run e custom rels refs = Inl err)"
    using run_collect_fail by blast
next
  fix r rm el
  assume r: "r \<in> set (ref_releases_rpm_builds e s3)"
    and h: "map_of (package_rpm_meta e) (bd_package_name r) = Some rm
            \<and> isolate_el_version_in_release e (bd_release r) = Some el
            \<and> retained s3 (bd_package_name r, el) = None
            \<and> rpm_latest_brew_build e rm el (basis_event s3) = None"
  let ?s = "logger INFO (QueryingRpmBuilds (card (rpm_build_ids e s3))) s3"
  from h have key: "rpm_key e r = Some (bd_package_name r, el)"
    by (simp add: rpm_key_def)
  from h have h3: "retained ?s (bd_package_name r, el) = None"
    and h1: "map_of (package_rpm_meta e) (bd_package_name r) = Some rm"
    and h4: "rpm_latest_brew_build e rm el (basis_event ?s) = None"
    by simp_all
  have "\<exists>err. select_rpms_loop e (ref_releases_rpm_builds e s3) ?s = Inl err"
    by (rule select_rpms_loop_absent_fatal[OF r key h3 h1 h4])
  then obtain err where "select_rpms e s3 = Inl err"
    by (auto simp: select_rpms_def)
  then show "\<exists>err. select_rpms e s3 = Inl err
                 \<and> (determine_basis_brew_event e rels init_state = Inr s1
                      \<and> collect_outliers e custom s1 = Inr s2
                      \<and> get_rhcos_container e custom s2 = Inr s3
                      \<longrightarrow> run e custom rels refs = Inl err)"
    using run_select_fail by blast
qed

theorem absent_basis_build_is_fatal_witness:
  "(\<exists>err. run ex_env_noimg False [(''a'', ''relA''), (''b'', ''relB'')] [] = Inl err)
   \<and> (\<exists>err. run ex_env_norpm False [(''a'', ''relA''), (''b'', ''relB'')] [] = Inl err)"
proof -
  let ?rels = "[(''a'', ''relA''), (''b'', ''relB'')]"
  let ?r = "ex_rpm 10 ''r'' ''r-0.el9'' ''1.el9''"
  have "\<exists>s1. determine_basis_brew_event ex_env_noimg ?rels init_state = Inr s1"
    by (simp add: ex_run)
  then obtain s1 where s1: "determine_basis_brew_event ex_env_noimg ?rels init_state = Inr s1" ..
  have im: "ex_meta \<in> set (image_metas ex_env_noimg)"
    "\<not> base_only ex_meta \<and> for_release ex_meta
       \<and> image_latest_brew_build ex_env_noimg ex_meta (basis_event s1) = None"
    by (simp_all add: ex_env_noimg_def ex_env_def ex_meta_def)
  have A: "\<exists>err. run ex_env_noimg False ?rels [] = Inl err"
    using absent_basis_build_is_fatal[where e = ex_env_noimg and ?s1.0 = s1 and custom = False
        and rels = ?rels and refs = "[]", THEN conjunct1, THEN bspec, OF im(1)] im(2) s1
    by blast
  have "\<exists>t1 t2 t3. determine_basis_brew_event ex_env_norpm ?rels init_state = Inr t1
      \<and> collect_outliers ex_env_norpm False t1 = Inr t2
      \<and> get_rhcos_container ex_env_norpm False t2 = Inr t3
      \<and> component_image_builds t3 = [(''x'', ex_x2)] \<and> component_rpm_builds t3 = []"
    by (simp add: ex_run)
  then obtain t1 t2 t3 where
    t: "determine_basis_brew_event ex_env_norpm ?rels init_state = Inr t1
        \<and> collect_outliers ex_env_norpm False t1 = Inr t2
        \<and> get_rhcos_container ex_env_norpm False t2 = Inr t3"
    and cib: "component_image_builds t3 = [(''x'', ex_x2)]"
    and crb: "component_rpm_builds t3 = []"
    by blast
  have r: "?r \<in> set (ref_releases_rpm_builds ex_env_norpm t3)"
    by (simp add: ref_releases_rpm_builds_def rpm_build_ids_def cib ex_env_norpm_def ex_env_def
          ex_rpm_def)
  have h: "map_of (package_rpm_meta ex_env_norpm) (bd_package_name ?r) = Some \<lparr>rpm_distgit_key = ''rk''\<rparr>
     \<and> isolate_el_version_in_release ex_env_norpm (bd_release ?r) = Some 9
     \<and> retained t3 (bd_package_name ?r, 9) = None
     \<and> rpm_latest_brew_build ex_env_norpm \<lparr>rpm_distgit_key = ''rk''\<rparr> 9 (basis_event t3) = None"
    by (simp add: ex_env_norpm_def ex_env_def ex_rpm_def retained_def crb)
  have B: "\<exists>err. run ex_env_norpm False ?rels [] = Inl err"
    using absent_basis_build_is_fatal[where e = ex_env_norpm and ?s1.0 = t1 and ?s2.0 = t2
        and ?s3.0 = t3 and custom = False and rels = ?rels and refs = "[]",
        THEN conjunct2, THEN bspec, OF r, THEN spec, THEN spec, THEN mp, OF h] t
    by blast
  from A B show ?thesis ..
qed

text \<open>
  C6. After \<open>_select_rpms\<close> the build retained for a package and el version is the one
  retained before, if any, and otherwise the first build in \<open>ref_releases_rpm_builds\<close>
  of that package (a package of the roster) whose release gives that el version: one
  build per pair, the first observed. A later build of a pair already retained leaves
  the state as it is and raises no error.
\<close>

theorem first_rpm_build_per_target_wins:
  assumes "select_rpms e s = Inr s'"
  shows "retained s' (pkg, el) =
           (case retained s (pkg, el) of
              Some x \<Rightarrow> Some x
            | None \<Rightarrow>
                find (\<lambda>r. bd_package_name r = pkg \<and> map_of (package_rpm_meta e) pkg \<noteq> None
                          \<and> isolate_el_version_in_release e (bd_release r) = Some el)
                  (ref_releases_rpm_builds e s))
       \<and> (\<forall>r x s0. map_of (package_rpm_meta e) (bd_package_name r) \<noteq> None
             \<and> isolate_el_version_in_release e (bd_release r) = Some el \<and> el \<noteq> 0
             \<and> retained s0 (bd_package_name r, el) = Some x
            \<longrightarrow> select_rpm e r s0 = Inr s0)"
proof -
  from assms have loop: "select_rpms_loop e (ref_releases_rpm_builds e s)
      (logger INFO (QueryingRpmBuilds (card (rpm_build_ids e s))) s) = Inr s'"
    by (simp add: select_rpms_def)
  have A: "retained s' (pkg, el) =
           (case retained s (pkg, el) of
              Some x \<Rightarrow> Some x
            | None \<Rightarrow>
                find (\<lambda>r. bd_package_name r = pkg \<and> map_of (package_rpm_meta e) pkg \<noteq> None
                          \<and> isolate_el_version_in_release e (bd_release r) = Some el)
                  (ref_releases_rpm_builds e s))"
    using select_rpms_loop_retained[OF loop, of "(pkg, el)"] unfolding find_rpm_key by simp
  have B: "select_rpm e r s0 = Inr s0"
    if "map_of (package_rpm_meta e) (bd_package_name r) \<noteq> None"
      and "isolate_el_version_in_release e (bd_release r) = Some el" and "el \<noteq> 0"
      and "retained s0 (bd_package_name r, el) = Some x" for r x s0
  proof -
    from that(1,2) have "rpm_key e r = Some (bd_package_name r, el)"
      by (auto simp: rpm_key_def)
    from select_rpm_duplicate[OF this _ that(4)] that(3) show ?thesis by simp
  qed
  from A B show ?thesis by blast
qed

theorem first_rpm_build_per_target_wins_witness:
  "\<exists>s'. select_rpms ex_env ex_s3 = Inr s'
     \<and> ref_releases_rpm_builds ex_env ex_s3
         = [ex_rpm 30 ''z'' ''z-1'' ''1'', ex_rpm 10 ''r'' ''r-0.el9'' ''1.el9'',
            ex_rpm 11 ''r'' ''r-1.el9'' ''1.el9'']
     \<and> retained s' (''r'', 9) = Some (ex_rpm 10 ''r'' ''r-0.el9'' ''1.el9'')
     \<and> select_rpm ex_env (ex_rpm 11 ''r'' ''r-1.el9'' ''1.el9'') s' = Inr s'"
proof -
  have "\<exists>s'. select_rpms ex_env ex_s3 = Inr s'"
    by (simp add: ex_eval)
  then obtain s' where s': "select_rpms ex_env ex_s3 = Inr s'" ..
  have rs: "ref_releases_rpm_builds ex_env ex_s3
         = [ex_rpm 30 ''z'' ''z-1'' ''1'', ex_rpm 10 ''r'' ''r-0.el9'' ''1.el9'',
            ex_rpm 11 ''r'' ''r-1.el9'' ''1.el9'']"
    by (simp add: ex_eval)
  have r0: "retained ex_s3 (''r'', 9) = None"
    by (simp add: ex_eval)
  have m: "map_of (package_rpm_meta ex_env) ''r'' \<noteq> None"
    "isolate_el_version_in_release ex_env ''1.el9'' = Some 9"
    "isolate_el_version_in_release ex_env ''1'' = None"
    by (simp_all add: ex_env_def)
  note T = first_rpm_build_per_target_wins[OF s', of "''r''" 9]
  from T have 1: "retained s' (''r'', 9) = Some (ex_rpm 10 ''r'' ''r-0.el9'' ''1.el9'')"
    by (simp add: rs r0 m) (simp add: ex_rpm_def m)
  have 2: "select_rpm ex_env (ex_rpm 11 ''r'' ''r-1.el9'' ''1.el9'') s' = Inr s'"
    using T[THEN conjunct2, THEN spec, of "ex_rpm 11 ''r'' ''r-1.el9'' ''1.el9''",
        THEN spec, of "ex_rpm 10 ''r'' ''r-0.el9'' ''1.el9''", THEN spec, of s']
    by (simp add: 1 m ex_rpm_def)
  from s' rs 1 2 show ?thesis by blast
qed



text \<open>
  C8. If the release of an rpm build of a package of the roster gives no el version,
  \<open>_select_rpms\<close> ends in an error and the run returns no assembly definition. A build
  of a package outside the roster leaves the state unchanged whatever its release is,
  and the loop over all builds equals the loop over the builds of roster packages.
\<close>

theorem unparseable_el_version_is_fatal:
  shows "(\<forall>r \<in> set (ref_releases_rpm_builds e s3). \<forall>rm.
            map_of (package_rpm_meta e) (bd_package_name r) = Some rm
            \<and> isolate_el_version_in_release e (bd_release r) = None
          \<longrightarrow> (\<exists>err. select_rpms e s3 = Inl err
                 \<and> (determine_basis_brew_event e rels init_state = Inr s1
                      \<and> collect_outliers e custom s1 = Inr s2
                      \<and> get_rhcos_container e custom s2 = Inr s3
                      \<longrightarrow> run e custom rels refs = Inl err)))
       \<and> (\<forall>r s. map_of (package_rpm_meta e) (bd_package_name r) = None
            \<longrightarrow> select_rpm e r s = Inr s)
       \<and> (\<forall>rs s. select_rpms_loop e
                    (filter (\<lambda>r. map_of (package_rpm_meta e) (bd_package_name r) \<noteq> None) rs) s
                  = select_rpms_loop e rs s)"
proof (intro conjI ballI allI impI)
  fix r rm
  assume r: "r \<in> set (ref_releases_rpm_builds e s3)"
    and h: "map_of (package_rpm_meta e) (bd_package_name r) = Some rm
            \<and> isolate_el_version_in_release e (bd_release r) = None"
  from h select_rpms_loop_unparsed_fatal[OF r, of e rm]
  obtain err where "select_rpms e s3 = Inl err"
    by (auto simp: select_rpms_def)
  then show "\<exists>err. select_rpms e s3 = Inl err
                 \<and> (determine_basis_brew_event e rels init_state = Inr s1
                      \<and> collect_outliers e custom s1 = Inr s2
                      \<and> get_rhcos_container e custom s2 = Inr s3
                      \<longrightarrow> run e custom rels refs = Inl err)"
    using run_select_fail by blast
next
  fix r :: brew_build_dict and s
  assume "map_of (package_rpm_meta e) (bd_package_name r) = None"
  then show "select_rpm e r s = Inr s" by (rule select_rpm_not_roster)
next
  fix rs s
  show "select_rpms_loop e
          (filter (\<lambda>r. map_of (package_rpm_meta e) (bd_package_name r) \<noteq> None) rs) s
        = select_rpms_loop e rs s"
    by (rule select_rpms_loop_filter_roster)
qed

theorem unparseable_el_version_is_fatal_witness:
  "(\<exists>err. run ex_env_noel False [(''a'', ''relA''), (''b'', ''relB'')] [] = Inl err)
   \<and> select_rpm ex_env (ex_rpm 30 ''z'' ''z-1'' ''1'') ex_s3 = Inr ex_s3"
proof -
  let ?rels = "[(''a'', ''relA''), (''b'', ''relB'')]"
  let ?r = "ex_rpm 10 ''r'' ''r-0.el9'' ''1.el9''"
  have "\<exists>t1 t2 t3. determine_basis_brew_event ex_env_noel ?rels init_state = Inr t1
      \<and> collect_outliers ex_env_noel False t1 = Inr t2
      \<and> get_rhcos_container ex_env_noel False t2 = Inr t3
      \<and> component_image_builds t3 = [(''x'', ex_x2)]"
    by (simp add: ex_run)
  then obtain t1 t2 t3 where
    t: "determine_basis_brew_event ex_env_noel ?rels init_state = Inr t1
        \<and> collect_outliers ex_env_noel False t1 = Inr t2
        \<and> get_rhcos_container ex_env_noel False t2 = Inr t3"
    and cib: "component_image_builds t3 = [(''x'', ex_x2)]"
    by blast
  have r: "?r \<in> set (ref_releases_rpm_builds ex_env_noel t3)"
    by (simp add: ref_releases_rpm_builds_def rpm_build_ids_def cib ex_env_noel_def ex_env_def
          ex_rpm_def)
  have h: "map_of (package_rpm_meta ex_env_noel) (bd_package_name ?r) = Some \<lparr>rpm_distgit_key = ''rk''\<rparr>
     \<and> isolate_el_version_in_release ex_env_noel (bd_release ?r) = None"
    by (simp add: ex_env_noel_def ex_env_def ex_rpm_def)
  note T = unparseable_el_version_is_fatal[where e = ex_env_noel and ?s1.0 = t1 and ?s2.0 = t2
        and ?s3.0 = t3 and custom = False and rels = ?rels and refs = "[]"]
  have A: "\<exists>err. run ex_env_noel False ?rels [] = Inl err"
    using T[THEN conjunct1, THEN bspec, OF r, THEN spec, THEN mp, OF h] t by blast
  have z: "map_of (package_rpm_meta ex_env) (bd_package_name (ex_rpm 30 ''z'' ''z-1'' ''1'')) = None"
    by (simp add: ex_env_def ex_rpm_def)
  have B: "select_rpm ex_env (ex_rpm 30 ''z'' ''z-1'' ''1'') ex_s3 = Inr ex_s3"
    using unparseable_el_version_is_fatal[where e = ex_env, THEN conjunct2, THEN conjunct1,
        THEN spec, THEN spec, THEN mp, OF z] .
  from A B show ?thesis ..
qed

text \<open>
  C9. A tag whose build conflicts with the recorded one is settled by the explicit
  payload name. When the name differs from the tag name the tag is dropped before its
  completion time is read: the basis instant stays as it was. When the name equals the
  tag name the new build replaces the recorded one and raises the instant, while the
  replaced build's completion time plus five minutes, counted when that build was
  recorded, stays below the instant for the rest of the release. So the instant can lie
  strictly above the completion time plus five minutes of every build still selected:
  the last conjunct gives such a run.
\<close>

theorem tie_break_timestamps:
  assumes "tag_name ct \<notin> set (get_container_names e)"
    and "bbi = inspect_pullspec e (tag_from ct)"
    and "map_of (component_image_builds s) (package_name bbi) = Some existing"
    and "nvr bbi \<noteq> nvr existing"
    and "snd (payload_tag_info (bbi_image_meta bbi))"
    and "\<forall>kv \<in> set (component_image_builds s). completion_ts (snd kv) + 60 * 5 \<le> basis_event_ts s"
    and "process_tag e arch pullspec ct s = Inr s'"
    and "process_tags e arch pullspec cts s' = Inr s''"
  shows "(fst (payload_tag_info (bbi_image_meta bbi)) \<noteq> tag_name ct \<longrightarrow>
            basis_event_ts s' = basis_event_ts s)
       \<and> (fst (payload_tag_info (bbi_image_meta bbi)) = tag_name ct \<longrightarrow>
            map_of (component_image_builds s') (package_name bbi) = Some bbi
            \<and> basis_event_ts s' = max (basis_event_ts s) (completion_ts bbi + 60 * 5)
            \<and> completion_ts existing + 60 * 5 \<le> basis_event_ts s'
            \<and> completion_ts existing + 60 * 5 \<le> basis_event_ts s'')
       \<and> (\<exists>e0 cts0 s0. process_tags e0 arch pullspec cts0 init_state = Inr s0
              \<and> component_image_builds s0 \<noteq> []
              \<and> (\<forall>kv \<in> set (component_image_builds s0).
                    completion_ts (snd kv) + 60 * 5 < basis_event_ts s0))"
proof -
  have ex: "completion_ts existing + 60 * 5 \<le> basis_event_ts s"
    using assms(3,6) map_of_SomeD by fastforce
  have mono: "basis_event_ts s' \<le> basis_event_ts s''"
    using process_tags_ts[OF assms(8)] .
  have A: "fst (payload_tag_info (bbi_image_meta bbi)) \<noteq> tag_name ct \<longrightarrow>
       basis_event_ts s' = basis_event_ts s"
    using assms(1-5,7) by (auto simp: process_tag_def Let_def logger_def)
  have "fst (payload_tag_info (bbi_image_meta bbi)) = tag_name ct \<Longrightarrow>
       map_of (component_image_builds s') (package_name bbi) = Some bbi
       \<and> basis_event_ts s' = max (basis_event_ts s) (completion_ts bbi + 60 * 5)"
    using assms(1-5,7)
    by (auto simp: process_tag_def Let_def logger_def raise_basis_event_ts_def AList.update_conv')
  then have B: "fst (payload_tag_info (bbi_image_meta bbi)) = tag_name ct \<longrightarrow>
            map_of (component_image_builds s') (package_name bbi) = Some bbi
            \<and> basis_event_ts s' = max (basis_event_ts s) (completion_ts bbi + 60 * 5)
            \<and> completion_ts existing + 60 * 5 \<le> basis_event_ts s'
            \<and> completion_ts existing + 60 * 5 \<le> basis_event_ts s''"
    using ex mono by auto
  have "\<exists>s0. process_tags ex_env arch pullspec
        [\<lparr>tag_name = ''foo'', tag_from = ''img2''\<rparr>, \<lparr>tag_name = ''foo'', tag_from = ''img1''\<rparr>]
        init_state = Inr s0
      \<and> component_image_builds s0 \<noteq> []
      \<and> (\<forall>kv \<in> set (component_image_builds s0).
            completion_ts (snd kv) + 60 * 5 < basis_event_ts s0)"
    by (simp add: ex_env_def ex_meta_def ex_x1_def ex_x2_def init_state_def process_tag_def
          raise_basis_event_ts_def logger_def Let_def)
  then have C: "\<exists>e0 cts0 s0. process_tags e0 arch pullspec cts0 init_state = Inr s0
              \<and> component_image_builds s0 \<noteq> []
              \<and> (\<forall>kv \<in> set (component_image_builds s0).
                    completion_ts (snd kv) + 60 * 5 < basis_event_ts s0)"
    by blast
  show ?thesis by (rule conjI[OF A conjI[OF B C]])
qed

theorem tie_break_timestamps_witness:
  "(\<exists>s'. process_tag ex_env ''a'' ''relA'' \<lparr>tag_name = ''bar'', tag_from = ''img1''\<rparr> ex_s2 = Inr s'
        \<and> basis_event_ts s' = 500 \<and> component_image_builds s' = [(''x'', ex_x2)])
   \<and> (\<exists>s'. process_tag ex_env ''a'' ''relA'' \<lparr>tag_name = ''foo'', tag_from = ''img1''\<rparr> ex_s2 = Inr s'
        \<and> map_of (component_image_builds s') ''x'' = Some ex_x1
        \<and> completion_ts ex_x1 + 60 * 5 = 400
        \<and> completion_ts ex_x2 + 60 * 5 = 500
        \<and> basis_event_ts s' = 500)"
proof -
  let ?foo = "\<lparr>tag_name = ''foo'', tag_from = ''img1''\<rparr>"
  let ?bar = "\<lparr>tag_name = ''bar'', tag_from = ''img1''\<rparr>"
  have n: "tag_name ?foo \<notin> set (get_container_names ex_env)"
    "tag_name ?bar \<notin> set (get_container_names ex_env)"
    by (simp_all add: ex_env_def)
  have i: "ex_x1 = inspect_pullspec ex_env (tag_from ?foo)"
    "ex_x1 = inspect_pullspec ex_env (tag_from ?bar)"
    by (simp_all add: ex_env_def)
  have m: "map_of (component_image_builds ex_s2) (package_name ex_x1) = Some ex_x2"
    by (simp add: ex_s2_def ex_x1_def init_state_def)
  have d: "nvr ex_x1 \<noteq> nvr ex_x2"
    by (simp add: ex_x1_def ex_x2_def)
  have x: "snd (payload_tag_info (bbi_image_meta ex_x1))"
    "fst (payload_tag_info (bbi_image_meta ex_x1)) = ''foo''"
    by (simp_all add: ex_x1_def ex_meta_def)
  have c: "\<forall>kv \<in> set (component_image_builds ex_s2).
             completion_ts (snd kv) + 60 * 5 \<le> basis_event_ts ex_s2"
    by (simp add: ex_s2_def ex_x2_def init_state_def)
  have ts: "completion_ts ex_x1 + 60 * 5 = 400" "completion_ts ex_x2 + 60 * 5 = 500"
    "basis_event_ts ex_s2 = 500" "component_image_builds ex_s2 = [(''x'', ex_x2)]"
    by (simp_all add: ex_x1_def ex_x2_def ex_s2_def init_state_def)
  obtain sb where sb: "process_tag ex_env ''a'' ''relA'' ?bar ex_s2 = Inr sb"
    and cb: "component_image_builds sb = [(''x'', ex_x2)]"
    using n(2) m d x i(2)
    by (simp add: process_tag_def Let_def ex_env_def logger_def ts(4))
  obtain sf where sf: "process_tag ex_env ''a'' ''relA'' ?foo ex_s2 = Inr sf"
    using n(1) m d x i(1)
    by (simp add: process_tag_def Let_def ex_env_def)
  have e: "process_tags ex_env ''a'' ''relA'' [] sb = Inr sb"
    "process_tags ex_env ''a'' ''relA'' [] sf = Inr sf" by simp_all
  have "basis_event_ts sb = 500"
    using tie_break_timestamps[OF n(2) i(2) m d x(1) c sb e(1)] by (simp add: x ts)
  moreover have "map_of (component_image_builds sf) ''x'' = Some ex_x1 \<and> basis_event_ts sf = 500"
    using tie_break_timestamps[OF n(1) i(1) m d x(1) c sf e(2)] by (simp add: x ts) (simp add: ex_x1_def)
  ultimately show ?thesis using sb sf cb ts by simp
qed



end
